theory Spec2Isabelle
  imports Complex_Main
begin

section \<open>The data model of \<^verbatim>\<open>types.ts\<close>\<close>

text \<open>
  The client is a TypeScript/React program. Its numbers are modelled as \<open>int\<close> where the
  program only ever holds integers (coordinates, counters, the bonus amount set through
  \<^verbatim>\<open>parseInt\<close>) and as \<open>real\<close> for the action values and the hyperparameters (finite
  doubles, compared and maximised as a linear order; no NaN).

  Field names of different interfaces that coincide in the source (\<^verbatim>\<open>width\<close>,
  \<^verbatim>\<open>episode\<close>, ...) carry a prefix here, because record selectors share one name space:
  \<open>cfg_\<close> for \<^verbatim>\<open>SetupConfig\<close>, \<open>lcp_\<close> for \<^verbatim>\<open>LearningCurvePoint\<close>,
  \<open>pos_\<close> for \<^verbatim>\<open>AgentPos\<close>, \<open>msg_\<close> for the fields of a streamed message.
\<close>

datatype CellType = Empty | Wall | Start | Target | Trap | Bonus

fun cell_string :: "CellType \<Rightarrow> string" where
  "cell_string Empty = ''empty''"
| "cell_string Wall = ''wall''"
| "cell_string Start = ''start''"
| "cell_string Target = ''target''"
| "cell_string Trap = ''trap''"
| "cell_string Bonus = ''bonus''"

datatype Action = UP | DOWN | LEFT | RIGHT

datatype Algorithm = Q_LEARNING | SARSA

datatype RewardStrategy = COLLECT_ALL_REWARDS | MINIMIZE_STEPS

text \<open>
  \<^verbatim>\<open>cells: string[][]\<close>. A row is a JavaScript array: a write past its end extends it and
  leaves holes that read as \<^verbatim>\<open>undefined\<close>, so an entry is \<open>Some s\<close> for a string and
  \<open>None\<close> for \<^verbatim>\<open>undefined\<close>.
\<close>

type_synonym Row = "string option list"

type_synonym Cells = "Row list"

record GridState =
  width :: int
  height :: int
  cells :: Cells

text \<open>\<^verbatim>\<open>Record<Action, number>\<close>: all four keys present.\<close>

type_synonym ActionValues = "Action \<Rightarrow> real"

text \<open>\<^verbatim>\<open>QTable = Record<string, Record<Action, number>>\<close>, keyed by \<^verbatim>\<open>"x,y"\<close>.\<close>

type_synonym QTable = "string \<rightharpoonup> ActionValues"

record AgentPos =
  pos_x :: int
  pos_y :: int

record SimulationState =
  env :: GridState
  agent_pos :: AgentPos
  q_table :: QTable
  episode :: int
  steps :: int
  total_reward :: real
  epsilon :: real
  update_version :: "int option"

record SetupConfig =
  cfg_width :: int
  cfg_height :: int
  cfg_cells :: "Cells option"
  cfg_alpha :: real
  cfg_gamma :: real
  cfg_epsilon :: real
  cfg_epsilon_decay :: real
  cfg_min_epsilon :: real
  cfg_algorithm :: Algorithm
  cfg_step_penalty :: real
  cfg_strategy :: RewardStrategy
  cfg_allowed_actions :: "Action list option"

record LearningCurvePoint =
  lcp_episode :: int
  lcp_reward :: real
  lcp_steps :: int

section \<open>\<^verbatim>\<open>api.ts\<close>: the WebSocket client\<close>

text \<open>
  The control messages \<^verbatim>\<open>{action: 'play'}\<close>, \<^verbatim>\<open>{action: 'pause'}\<close> and
  \<^verbatim>\<open>{action: 'set_speed', speed}\<close>, before \<^verbatim>\<open>JSON.stringify\<close>.
\<close>

datatype Control = PlayMsg | PauseMsg | SetSpeedMsg int

datatype ReadyState = CONNECTING | OPEN | CLOSING | CLOSED

text \<open>
  A browser \<^verbatim>\<open>WebSocket\<close>: its \<^verbatim>\<open>readyState\<close> and the frames handed to
  \<^verbatim>\<open>send\<close>, oldest first.
\<close>

record WebSocket =
  readyState :: ReadyState
  sent :: "Control list"

text \<open>
  \<^verbatim>\<open>class WSClient { private ws: WebSocket | null = null; ... }\<close>. The class has no
  other field that could hold a command: \<^verbatim>\<open>onMessageCb\<close> is the inbound callback.
\<close>

record WSClient =
  ws :: "WebSocket option"

definition new_WSClient :: WSClient where
  "new_WSClient = \<lparr>ws = None\<rparr>"

text \<open>\<^verbatim>\<open>this.ws?.readyState === WebSocket.OPEN\<close>\<close>

definition is_open :: "WSClient \<Rightarrow> bool" where
  "is_open c = (case ws c of None \<Rightarrow> False | Some s \<Rightarrow> readyState s = OPEN)"

text \<open>\<^verbatim>\<open>this.ws.send(JSON.stringify(m))\<close>, under the guard above.\<close>

definition send_if_open :: "Control \<Rightarrow> WSClient \<Rightarrow> WSClient" where
  "send_if_open m c =
     (case ws c of
        None \<Rightarrow> c
      | Some s \<Rightarrow> if readyState s = OPEN then c\<lparr>ws := Some (s\<lparr>sent := sent s @ [m]\<rparr>)\<rparr> else c)"

definition play :: "WSClient \<Rightarrow> WSClient" where
  "play c = send_if_open PlayMsg c"

definition pause :: "WSClient \<Rightarrow> WSClient" where
  "pause c = send_if_open PauseMsg c"

definition setSpeed :: "int \<Rightarrow> WSClient \<Rightarrow> WSClient" where
  "setSpeed v c = send_if_open (SetSpeedMsg v) c"

text \<open>
  \<^verbatim>\<open>connect\<close> replaces the socket by a fresh one (\<^verbatim>\<open>new WebSocket(WS_URL)\<close>), which
  starts in state CONNECTING with nothing sent; the browser later fires \<^verbatim>\<open>open\<close> or
  \<^verbatim>\<open>close\<close> on it. \<^verbatim>\<open>onclose\<close> schedules the next \<^verbatim>\<open>connect\<close>.
\<close>

definition connect :: "WSClient \<Rightarrow> WSClient" where
  "connect c = c\<lparr>ws := Some \<lparr>readyState = CONNECTING, sent = []\<rparr>\<rparr>"

definition socket_opened :: "WSClient \<Rightarrow> WSClient" where
  "socket_opened c = (case ws c of None \<Rightarrow> c | Some s \<Rightarrow> c\<lparr>ws := Some (s\<lparr>readyState := OPEN\<rparr>)\<rparr>)"

definition socket_closed :: "WSClient \<Rightarrow> WSClient" where
  "socket_closed c = (case ws c of None \<Rightarrow> c | Some s \<Rightarrow> c\<lparr>ws := Some (s\<lparr>readyState := CLOSED\<rparr>)\<rparr>)"

text \<open>
  \<^verbatim>\<open>disconnect\<close>: \<^verbatim>\<open>if (this.ws) { this.ws.onclose = null; this.ws.close(); }\<close>.
  \<^verbatim>\<open>close()\<close> starts the closing of a connecting or open socket and does nothing to
  one that is closing or closed.
\<close>

definition disconnect :: "WSClient \<Rightarrow> WSClient" where
  "disconnect c =
     (case ws c of
        None \<Rightarrow> c
      | Some s \<Rightarrow>
          if readyState s = CLOSING \<or> readyState s = CLOSED then c
          else c\<lparr>ws := Some (s\<lparr>readyState := CLOSING\<rparr>)\<rparr>)"

section \<open>JavaScript arrays\<close>

datatype js_error = TypeError | FetchError

text \<open>\<^verbatim>\<open>xs[i]\<close>: \<^verbatim>\<open>undefined\<close> (here \<open>None\<close>) outside the array.\<close>

definition js_index :: "'a list \<Rightarrow> int \<Rightarrow> 'a option" where
  "js_index xs i = (if 0 \<le> i \<and> i < int (length xs) then Some (xs ! nat i) else None)"

text \<open>
  \<^verbatim>\<open>row[i] = v\<close> on a row of cells: inside the row the entry is replaced; past the end
  the row grows to length \<open>i + 1\<close> with holes in between; a negative \<open>i\<close> sets a
  property that is no array element, so the entries stay as they are.
\<close>

definition js_store :: "Row \<Rightarrow> int \<Rightarrow> string \<Rightarrow> Row" where
  "js_store row i v =
     (if i < 0 then row
      else if nat i < length row then row[nat i := Some v]
      else row @ replicate (nat i - length row) None @ [Some v])"

text \<open>
  \<^verbatim>\<open>cs[y][x]\<close>: a missing row is \<^verbatim>\<open>undefined\<close>, and reading a property of
  \<^verbatim>\<open>undefined\<close> throws a TypeError; a missing entry of an existing row reads as
  \<^verbatim>\<open>undefined\<close>.
\<close>

definition cell_at :: "Cells \<Rightarrow> int \<Rightarrow> int \<Rightarrow> js_error + string option" where
  "cell_at cs y x =
     (case js_index cs y of
        None \<Rightarrow> Inl TypeError
      | Some row \<Rightarrow> Inr (case js_index row x of None \<Rightarrow> None | Some c \<Rightarrow> c))"

text \<open>\<^verbatim>\<open>cs[y][x] = v\<close>, with the same TypeError for a missing row.\<close>

definition set_cell :: "Cells \<Rightarrow> int \<Rightarrow> int \<Rightarrow> string \<Rightarrow> js_error + Cells" where
  "set_cell cs y x v =
     (case js_index cs y of
        None \<Rightarrow> Inl TypeError
      | Some row \<Rightarrow> Inr (cs[nat y := js_store row x v]))"

text \<open>\<^verbatim>\<open>xs.slice(-n)\<close> for a positive \<open>n\<close>: the last \<open>n\<close> elements, or all of a shorter array.\<close>

definition slice_last :: "nat \<Rightarrow> 'a list \<Rightarrow> 'a list" where
  "slice_last n xs = drop (length xs - n) xs"

text \<open>
  A template literal \<^verbatim>\<open>${n}\<close> of an integer: its decimal digits, with a minus sign for a
  negative one (JavaScript switches to exponent notation from \<open>10\<^sup>2\<^sup>1\<close> on; the bonus
  amounts of this program are far below).
\<close>

definition digit_char :: "nat \<Rightarrow> char" where
  "digit_char n = ''0123456789'' ! n"

fun digits :: "nat \<Rightarrow> string" where
  "digits n = (if n < 10 then [digit_char n] else digits (n div 10) @ [digit_char (n mod 10)])"

definition number_string :: "int \<Rightarrow> string" where
  "number_string i = (if i < 0 then CHR ''-'' # digits (nat (- i)) else digits (nat i))"

section \<open>The state of \<^verbatim>\<open>App\<close>\<close>

text \<open>
  The requests of \<^verbatim>\<open>APIClient\<close>. Each call is a \<^verbatim>\<open>fetch\<close> followed by
  \<^verbatim>\<open>res.json()\<close>; the promise resolves with the decoded body or rejects. The model
  keeps the log of what was issued and how it ended, oldest first, and takes the outcome
  of every awaited call as a parameter of the handler that awaits it.
\<close>

datatype Request =
    SetupReq SetupConfig
  | UpdateConfigReq SetupConfig
  | GetStateReq
  | StepReq
  | TurboReq int
  | MazeReq
  | ClearReq
  | PathReq

datatype HttpEvent = Issued Request | Completed Request | Failed Request

text \<open>
  The \<^verbatim>\<open>useState\<close> and \<^verbatim>\<open>useRef\<close> cells of the component that the handlers below
  read or write (the view toggles and the theme are left out: no handler modelled here
  touches them), and \<open>http\<close>, the log of the requests made through \<^verbatim>\<open>APIClient\<close>.
\<close>

record App =
  config :: SetupConfig
  state :: "SimulationState option"
  curve :: "LearningCurvePoint list"
  isRunning :: bool
  speed :: int
  error :: "string option"
  drawMode :: CellType
  bonusValue :: int
  optimalPath :: "AgentPos list"
  qTableRef :: QTable
  wsClient :: WSClient
  http :: "HttpEvent list"

definition issue :: "Request \<Rightarrow> App \<Rightarrow> App" where
  "issue r app = app\<lparr>http := http app @ [Issued r]\<rparr>"

definition completed :: "Request \<Rightarrow> App \<Rightarrow> App" where
  "completed r app = app\<lparr>http := http app @ [Completed r]\<rparr>"

definition failed :: "Request \<Rightarrow> App \<Rightarrow> App" where
  "failed r app = app\<lparr>http := http app @ [Failed r]\<rparr>"

text \<open>
  \<^verbatim>\<open>fetchPath\<close> is never awaited by its callers: it issues the request, and the
  answer, when it comes, is stored by \<open>fetchPath_done\<close> (a rejection is only logged to the
  console).
\<close>

definition fetchPath :: "App \<Rightarrow> App" where
  "fetchPath app = issue PathReq app"

definition fetchPath_done :: "js_error + AgentPos list \<Rightarrow> App \<Rightarrow> App" where
  "fetchPath_done res app =
     (case res of
        Inl e \<Rightarrow> failed PathReq app
      | Inr p \<Rightarrow> (completed PathReq app)\<lparr>optimalPath := p\<rparr>)"

text \<open>
  \<^verbatim>\<open>loadState\<close>: \<^verbatim>\<open>try { const st = await APIClient.getState(); setState(st);
  fetchPath(); } catch (e) { console.error(...) }\<close>.
\<close>

definition loadState :: "js_error + SimulationState \<Rightarrow> App \<Rightarrow> App" where
  "loadState gs app =
     (case gs of
        Inl e \<Rightarrow> failed GetStateReq (issue GetStateReq app)
      | Inr st \<Rightarrow> fetchPath ((completed GetStateReq (issue GetStateReq app))\<lparr>state := Some st\<rparr>))"

definition handlePlay :: "App \<Rightarrow> App" where
  "handlePlay app = app\<lparr>isRunning := True, wsClient := play (wsClient app)\<rparr>"


definition handleSpeedChange :: "int \<Rightarrow> App \<Rightarrow> App" where
  "handleSpeedChange newSpeed app = app\<lparr>speed := newSpeed, wsClient := setSpeed newSpeed (wsClient app)\<rparr>"

section \<open>The streamed messages and \<^verbatim>\<open>onMessageRef\<close>\<close>

text \<open>
  The handler receives \<^verbatim>\<open>data: any\<close>. The fields it reads from a message tagged
  \<^verbatim>\<open>update\<close> are collected here; a field it tests for truthiness and that holds an
  object or an array when present is an \<open>option\<close> (every object is truthy, the empty one
  too), a flag is a \<open>bool\<close>.
\<close>

record UpdateMsg =
  msg_agent_pos :: AgentPos
  msg_q_delta :: "QTable option"
  msg_q_table :: "QTable option"
  msg_episode :: int
  msg_steps :: int
  msg_total_reward :: real
  msg_epsilon :: real
  msg_grid_update :: "(int \<times> int) option"
  msg_respawn_bonuses :: bool
  msg_full_grid :: "Cells option"
  msg_episode_done :: bool
  msg_episode_reward :: real

datatype Message = Update UpdateMsg | ErrorMsg string | OtherMsg

text \<open>
  \<^verbatim>\<open>if (data.q_delta) Object.assign(qTableRef.current, data.q_delta);
  else if (data.q_table) qTableRef.current = data.q_table;\<close>
\<close>

definition merge_q :: "UpdateMsg \<Rightarrow> QTable \<Rightarrow> QTable" where
  "merge_q m qt =
     (case msg_q_delta m of
        Some d \<Rightarrow> qt ++ d
      | None \<Rightarrow> (case msg_q_table m of Some t \<Rightarrow> t | None \<Rightarrow> qt))"

text \<open>\<^verbatim>\<open>prev.update_version ? prev.update_version + 1 : 1\<close>: absent and 0 are falsy.\<close>

definition next_version :: "int option \<Rightarrow> int option" where
  "next_version v = (case v of None \<Rightarrow> Some 1 | Some n \<Rightarrow> if n = 0 then Some 1 else Some (n + 1))"

text \<open>The first \<^verbatim>\<open>setState\<close> updater, on a loaded state.\<close>

definition update_fields :: "UpdateMsg \<Rightarrow> QTable \<Rightarrow> SimulationState \<Rightarrow> SimulationState" where
  "update_fields m qt prev =
     prev\<lparr>agent_pos := msg_agent_pos m,
          q_table := qt,
          episode := msg_episode m,
          steps := msg_steps m,
          total_reward := msg_total_reward m,
          epsilon := msg_epsilon m,
          update_version := next_version (update_version prev)\<rparr>"

text \<open>
  The updater of \<^verbatim>\<open>grid_update\<close>, on a loaded state:
  \<^verbatim>\<open>const newCells = [...prev.env.cells]; newCells[y] = [...newCells[y]];
  newCells[y][x] = 'empty'\<close>. Spreading a missing row throws a TypeError, inside the
  updater, which takes the component down.
\<close>

definition grid_update :: "int \<times> int \<Rightarrow> SimulationState \<Rightarrow> js_error + SimulationState" where
  "grid_update xy prev =
     (case xy of (x, y) \<Rightarrow>
        (case set_cell (cells (env prev)) y x ''empty'' of
           Inl e \<Rightarrow> Inl e
         | Inr newCells \<Rightarrow> Inr (prev\<lparr>env := (env prev)\<lparr>cells := newCells\<rparr>\<rparr>)))"

text \<open>\<^verbatim>\<open>{ ...prev, env: { ...prev.env, cells: cs } }\<close>\<close>

definition with_cells :: "Cells \<Rightarrow> SimulationState \<Rightarrow> SimulationState" where
  "with_cells cs prev = prev\<lparr>env := (env prev)\<lparr>cells := cs\<rparr>\<rparr>"

text \<open>
  The grid part of an \<^verbatim>\<open>update\<close>: \<^verbatim>\<open>grid_update\<close>, then \<^verbatim>\<open>respawn_bonuses\<close>
  (only when \<^verbatim>\<open>config.cells\<close> is set), then \<^verbatim>\<open>full_grid\<close>, each an updater of its
  own that keeps a \<^verbatim>\<open>null\<close> state \<^verbatim>\<open>null\<close>.
\<close>

definition grid_steps ::
  "UpdateMsg \<Rightarrow> SetupConfig \<Rightarrow> SimulationState option \<Rightarrow> js_error + SimulationState option" where
  "grid_steps m cfg st1 =
     (case (case msg_grid_update m of
              None \<Rightarrow> Inr st1
            | Some xy \<Rightarrow>
                (case st1 of
                   None \<Rightarrow> Inr None
                 | Some prev \<Rightarrow>
                     (case grid_update xy prev of Inl e \<Rightarrow> Inl e | Inr s \<Rightarrow> Inr (Some s)))) of
        Inl e \<Rightarrow> Inl e
      | Inr st2 \<Rightarrow>
          (let st3 = (if msg_respawn_bonuses m
                      then (case cfg_cells cfg of
                              None \<Rightarrow> st2
                            | Some cs \<Rightarrow> map_option (with_cells cs) st2)
                      else st2);
               st4 = (case msg_full_grid m of
                        None \<Rightarrow> st3
                      | Some g \<Rightarrow> map_option (with_cells g) st3)
           in Inr st4))"

text \<open>
  \<^verbatim>\<open>setCurve(prev => [...prev, newPoint].slice(-200))\<close> with
  \<^verbatim>\<open>newPoint = { episode: data.episode, reward: data.episode_reward, steps: data.steps }\<close>.
\<close>

definition episode_point :: "UpdateMsg \<Rightarrow> LearningCurvePoint" where
  "episode_point m =
     \<lparr>lcp_episode = msg_episode m, lcp_reward = msg_episode_reward m, lcp_steps = msg_steps m\<rparr>"

definition push_point :: "UpdateMsg \<Rightarrow> LearningCurvePoint list \<Rightarrow> LearningCurvePoint list" where
  "push_point m prev = slice_last 200 (prev @ [episode_point m])"

definition onMessage :: "Message \<Rightarrow> App \<Rightarrow> js_error + App" where
  "onMessage data app =
     (case data of
        Update m \<Rightarrow>
          (let qt = merge_q m (qTableRef app);
               st1 = map_option (update_fields m qt) (state app)
           in case grid_steps m (config app) st1 of
                Inl e \<Rightarrow> Inl e
              | Inr st4 \<Rightarrow>
                  (let app1 = app\<lparr>qTableRef := qt, state := st4\<rparr>
                   in Inr (if msg_episode_done m
                           then fetchPath (app1\<lparr>curve := push_point m (curve app1)\<rparr>)
                           else app1)))
      | ErrorMsg message \<Rightarrow> Inr (app\<lparr>error := Some message, isRunning := False\<rparr>)
      | OtherMsg \<Rightarrow> Inr app)"

section \<open>\<^verbatim>\<open>handleTurbo\<close>\<close>

text \<open>The fields of the answer to \<^verbatim>\<open>APIClient.turbo\<close> that the handler reads.\<close>

record TurboRes =
  tr_status :: string
  tr_curve :: "LearningCurvePoint list"

text \<open>
  \<^verbatim>\<open>setIsRunning(false); wsClient.current.pause();
  await APIClient.updateConfig(config);
  const res = await APIClient.turbo(count);
  if (res.status === 'done') { setCurve(prev => [...prev.slice(-100), ...res.curve]);
  await loadState(); }\<close>

  A rejected \<^verbatim>\<open>await\<close> ends the handler there (its own promise rejects); what was done
  before stays done. The result is the state and the rejection, if any.
\<close>

definition handleTurbo ::
  "int \<Rightarrow> js_error + unit \<Rightarrow> js_error + TurboRes \<Rightarrow> js_error + SimulationState \<Rightarrow> App
     \<Rightarrow> App \<times> js_error option" where
  "handleTurbo count uc tr gs app =
     (let app1 = app\<lparr>isRunning := False, wsClient := pause (wsClient app)\<rparr>;
          app2 = issue (UpdateConfigReq (config app)) app1
      in case uc of
           Inl e \<Rightarrow> (failed (UpdateConfigReq (config app)) app2, Some e)
         | Inr u \<Rightarrow>
             (let app3 = issue (TurboReq count) (completed (UpdateConfigReq (config app)) app2)
              in case tr of
                   Inl e \<Rightarrow> (failed (TurboReq count) app3, Some e)
                 | Inr res \<Rightarrow>
                     (let app4 = completed (TurboReq count) app3
                      in if tr_status res = ''done''
                         then (loadState gs (app4\<lparr>curve := slice_last 100 (curve app4) @ tr_curve res\<rparr>), None)
                         else (app4, None))))"

section \<open>\<^verbatim>\<open>handleCellAction\<close>\<close>

text \<open>
  \<^verbatim>\<open>const targetCellValue = drawMode === 'bonus' ? `bonus:${bonusValue}` : drawMode\<close>
\<close>

definition targetCellValue :: "App \<Rightarrow> string" where
  "targetCellValue app =
     (if drawMode app = Bonus then ''bonus:'' @ number_string (bonusValue app)
      else cell_string (drawMode app))"

text \<open>\<^verbatim>\<open>a || b\<close> on numbers: 0 is falsy.\<close>

definition or_else :: "int \<Rightarrow> int \<Rightarrow> int" where
  "or_else a b = (if a \<noteq> 0 then a else b)"

text \<open>
  The two nested loops that remove the brush's mark from the grid before a \<^verbatim>\<open>start\<close> or a
  \<^verbatim>\<open>target\<close> is placed:
  \<^verbatim>\<open>for (ry = 0; ry < h; ry++) for (rx = 0; rx < w; rx++)
    if (newCells[ry][rx] === drawMode) newCells[ry][rx] = 'empty'\<close>.
  \<open>clear_row\<close> is the inner loop over the columns still to visit, \<open>clear_rows\<close> the outer
  one over the rows still to visit.
\<close>

fun clear_row :: "string \<Rightarrow> int \<Rightarrow> nat list \<Rightarrow> Cells \<Rightarrow> js_error + Cells" where
  "clear_row d ry [] cs = Inr cs"
| "clear_row d ry (rx # rxs) cs =
     (case cell_at cs ry (int rx) of
        Inl e \<Rightarrow> Inl e
      | Inr c \<Rightarrow>
          if c = Some d
          then (case set_cell cs ry (int rx) ''empty'' of
                  Inl e \<Rightarrow> Inl e
                | Inr cs' \<Rightarrow> clear_row d ry rxs cs')
          else clear_row d ry rxs cs)"

fun clear_rows :: "string \<Rightarrow> nat list \<Rightarrow> nat \<Rightarrow> Cells \<Rightarrow> js_error + Cells" where
  "clear_rows d [] w cs = Inr cs"
| "clear_rows d (ry # rys) w cs =
     (case clear_row d (int ry) [0..<w] cs of
        Inl e \<Rightarrow> Inl e
      | Inr cs' \<Rightarrow> clear_rows d rys w cs')"

definition clear_marks :: "string \<Rightarrow> int \<Rightarrow> int \<Rightarrow> Cells \<Rightarrow> js_error + Cells" where
  "clear_marks d h w cs = clear_rows d [0..<nat h] (nat w) cs"

text \<open>
  \<^verbatim>\<open>try { await APIClient.setup(newConfig); await loadState(); } catch (err) {
  console.error(...) }\<close>
\<close>

definition sync_cells :: "SetupConfig \<Rightarrow> js_error + unit \<Rightarrow> js_error + SimulationState \<Rightarrow> App \<Rightarrow> App" where
  "sync_cells newConfig su gs app =
     (case su of
        Inl e \<Rightarrow> failed (SetupReq newConfig) (issue (SetupReq newConfig) app)
      | Inr u \<Rightarrow> loadState gs (completed (SetupReq newConfig) (issue (SetupReq newConfig) app)))"

text \<open>
  The handler of a click (\<^verbatim>\<open>isDrag = false\<close>) or a drag on cell \<open>(x, y)\<close>. A TypeError
  can only arise before \<^verbatim>\<open>setConfig\<close>, so a rejected call has changed nothing.
\<close>

definition handleCellAction ::
  "int \<Rightarrow> int \<Rightarrow> bool \<Rightarrow> js_error + unit \<Rightarrow> js_error + SimulationState \<Rightarrow> App \<Rightarrow> js_error + App" where
  "handleCellAction x y isDrag su gs app =
     (case state app of
        None \<Rightarrow> Inr app
      | Some st \<Rightarrow>
          if isRunning app then Inr app
          else
            (let newCells = (case cfg_cells (config app) of Some cs \<Rightarrow> cs | None \<Rightarrow> cells (env st));
                 v = targetCellValue app
             in case cell_at newCells y x of
                  Inl e \<Rightarrow> Inl e
                | Inr c \<Rightarrow>
                    if c = Some v then Inr app
                    else
                      (case (if drawMode app = Start \<or> drawMode app = Target
                             then clear_marks (cell_string (drawMode app))
                                    (or_else (cfg_height (config app)) (height (env st)))
                                    (or_else (cfg_width (config app)) (width (env st)))
                                    newCells
                             else Inr newCells) of
                         Inl e \<Rightarrow> Inl e
                       | Inr cleared \<Rightarrow>
                           (case set_cell cleared y x v of
                              Inl e \<Rightarrow> Inl e
                            | Inr painted \<Rightarrow>
                                (let newConfig = (config app)\<lparr>cfg_cells := Some painted\<rparr>;
                                     app1 = app\<lparr>config := newConfig\<rparr>
                                 in Inr (if isDrag then app1 else sync_cells newConfig su gs app1))))))"

text \<open>
  The grid an edit starts from and the one it leaves behind:
  \<^verbatim>\<open>config.cells\<close> when set, else \<^verbatim>\<open>state.env.cells\<close>.
\<close>

definition active_cells :: "App \<Rightarrow> Cells option" where
  "active_cells app =
     (case cfg_cells (config app) of
        Some cs \<Rightarrow> Some cs
      | None \<Rightarrow> map_option (\<lambda>st. cells (env st)) (state app))"

text \<open>How many cells of a grid hold the string \<open>v\<close>.\<close>

definition row_count :: "string \<Rightarrow> Row \<Rightarrow> nat" where
  "row_count v row = length (filter (\<lambda>c. c = Some v) row)"

definition cell_count :: "string \<Rightarrow> Cells \<Rightarrow> nat" where
  "cell_count v cs = sum_list (map (row_count v) cs)"

text \<open>A grid of \<open>h\<close> rows of \<open>w\<close> cells each.\<close>

definition rect :: "int \<Rightarrow> int \<Rightarrow> Cells \<Rightarrow> bool" where
  "rect h w cs = (int (length cs) = h \<and> list_all (\<lambda>row. int (length row) = w) cs)"

text \<open>
  What the two loops do to one cell: a cell that holds the brush's mark \<open>d\<close> becomes
  \<^verbatim>\<open>'empty'\<close>, every other cell stays.
\<close>

definition unmark :: "string \<Rightarrow> string option \<Rightarrow> string option" where
  "unmark d c = (if c = Some d then Some ''empty'' else c)"

section \<open>\<^verbatim>\<open>CanvasGrid\<close>: the best-action arrow\<close>









section \<open>The agent's exploration rate\<close>

text \<open>
  Modelled from the spec: the agent and its training loop are not among the source files
  of the client. The spec gives the update made after each completed episode as
  \<^verbatim>\<open>epsilon = max(min_epsilon, epsilon * epsilon_decay)\<close>.
\<close>

definition decay_epsilon :: "real \<Rightarrow> real \<Rightarrow> real \<Rightarrow> real" where
  "decay_epsilon min_epsilon epsilon_decay eps = max min_epsilon (eps * epsilon_decay)"

text \<open>Modelled from the spec: the exploration rate after \<open>k\<close> completed episodes.\<close>

fun epsilon_after :: "nat \<Rightarrow> real \<Rightarrow> real \<Rightarrow> real \<Rightarrow> real" where
  "epsilon_after 0 min_epsilon epsilon_decay eps0 = eps0"
| "epsilon_after (Suc k) min_epsilon epsilon_decay eps0 =
     decay_epsilon min_epsilon epsilon_decay (epsilon_after k min_epsilon epsilon_decay eps0)"

text \<open>
  Modelled from the spec: the closed form the spec states for it,
  \<^verbatim>\<open>max(min_epsilon, epsilon_0 * epsilon_decay^k)\<close>.
\<close>

definition epsilon_closed_form :: "nat \<Rightarrow> real \<Rightarrow> real \<Rightarrow> real \<Rightarrow> real" where
  "epsilon_closed_form k min_epsilon epsilon_decay eps0 = max min_epsilon (eps0 * epsilon_decay ^ k)"

section \<open>Example states\<close>

text \<open>\<^verbatim>\<open>DEFAULT_CONFIG\<close> of the component.\<close>

definition DEFAULT_CONFIG :: SetupConfig where
  "DEFAULT_CONFIG =
     \<lparr>cfg_width = 15, cfg_height = 15, cfg_cells = None, cfg_alpha = 1 / 10, cfg_gamma = 9 / 10,
      cfg_epsilon = 2 / 10, cfg_epsilon_decay = 995 / 1000, cfg_min_epsilon = 1 / 100,
      cfg_algorithm = Q_LEARNING, cfg_step_penalty = - 1, cfg_strategy = MINIMIZE_STEPS,
      cfg_allowed_actions = None\<rparr>"

text \<open>The component as it is mounted: the initial values of its state cells.\<close>

definition initial_App :: App where
  "initial_App =
     \<lparr>config = DEFAULT_CONFIG, state = None, curve = [], isRunning = False, speed = 100,
      error = None, drawMode = Wall, bonusValue = 20, optimalPath = [], qTableRef = Map.empty,
      wsClient = new_WSClient, http = []\<rparr>"

text \<open>A 2 by 2 grid with the start in the top left and the target in the bottom right corner.\<close>

definition grid2 :: Cells where
  "grid2 = [[Some ''start'', Some ''empty''], [Some ''empty'', Some ''target'']]"

definition state2 :: SimulationState where
  "state2 =
     \<lparr>env = \<lparr>width = 2, height = 2, cells = grid2\<rparr>, agent_pos = \<lparr>pos_x = 0, pos_y = 0\<rparr>,
      q_table = Map.empty, episode = 0, steps = 0, total_reward = 0, epsilon = 2 / 10,
      update_version = None\<rparr>"

text \<open>The component after a setup of that grid: loaded, paused, wall brush.\<close>

definition app2 :: App where
  "app2 = initial_App\<lparr>config := DEFAULT_CONFIG\<lparr>cfg_width := 2, cfg_height := 2\<rparr>, state := Some state2\<rparr>"

text \<open>Action values that prefer UP, and ones where UP is worst and the other three tie.\<close>

definition q_up :: ActionValues where
  "q_up = (\<lambda>a. if a = UP then 1 else 0)"

definition q_tie :: ActionValues where
  "q_tie = (\<lambda>a. if a = UP then - 1 else 0)"


text \<open>
  An \<^verbatim>\<open>update\<close> that ends episode 3 and carries a delta for the key \<^verbatim>\<open>"0,0"\<close>.
\<close>

definition delta_msg :: UpdateMsg where
  "delta_msg =
     \<lparr>msg_agent_pos = \<lparr>pos_x = 1, pos_y = 0\<rparr>, msg_q_delta = Some [''0,0'' \<mapsto> q_up],
      msg_q_table = None, msg_episode = 3, msg_steps = 7, msg_total_reward = - 7,
      msg_epsilon = 2 / 10, msg_grid_update = None, msg_respawn_bonuses = False,
      msg_full_grid = None, msg_episode_done = True, msg_episode_reward = 93\<rparr>"

text \<open>
  The same grid with a bonus of 20 painted on cell \<open>(1, 0)\<close>, which puts the grid into
  \<^verbatim>\<open>config.cells\<close>, and the component once the server has taken it over.
\<close>

definition grid_bonus :: Cells where
  "grid_bonus = [[Some ''start'', Some ''bonus:20''], [Some ''empty'', Some ''target'']]"

definition app_bonus :: App where
  "app_bonus = app2\<lparr>config := (config app2)\<lparr>cfg_cells := Some grid_bonus\<rparr>,
                    state := Some (with_cells grid_bonus state2)\<rparr>"

text \<open>An \<^verbatim>\<open>update\<close> of a step onto that bonus: the cell \<open>(1, 0)\<close> reverts to empty.\<close>

definition collect_msg :: UpdateMsg where
  "collect_msg =
     delta_msg\<lparr>msg_q_delta := None, msg_grid_update := Some (1, 0), msg_episode_done := False\<rparr>"


text \<open>
  The state the server holds after a turbo batch, with a learned entry for the key
  \<^verbatim>\<open>"1,1"\<close>, and the component after the \<^verbatim>\<open>handleTurbo\<close> that loaded it.
\<close>

definition trained_state :: SimulationState where
  "trained_state = state2\<lparr>q_table := [''1,1'' \<mapsto> q_tie], episode := 1000\<rparr>"

definition app_trained :: App where
  "app_trained =
     fst (handleTurbo 1000 (Inr ()) (Inr \<lparr>tr_status = ''done'', tr_curve = []\<rparr>)
            (Inr trained_state) app2)"



section \<open>Control commands while the socket is not open\<close>

lemma send_if_open_not_open: "\<not> is_open c \<Longrightarrow> send_if_open m c = c"
  by (simp add: is_open_def send_if_open_def split: option.splits)

text \<open>
  C10. When the socket is absent, connecting, closing or closed, \<^verbatim>\<open>play\<close>,
  \<^verbatim>\<open>pause\<close> and \<^verbatim>\<open>setSpeed\<close> leave the client exactly as it was: nothing is handed
  to \<^verbatim>\<open>send\<close>, and nothing is kept for later, so the socket that a reconnection opens
  afterwards has sent nothing.
\<close>

theorem control_dropped_when_not_open:
  assumes "\<not> is_open c"
  shows "play c = c \<and> pause c = c \<and> setSpeed v c = c
    \<and> ws (socket_opened (connect (play c))) = Some \<lparr>readyState = OPEN, sent = []\<rparr>
    \<and> ws (socket_opened (connect (pause c))) = Some \<lparr>readyState = OPEN, sent = []\<rparr>
    \<and> ws (socket_opened (connect (setSpeed v c))) = Some \<lparr>readyState = OPEN, sent = []\<rparr>"
  using assms
  by (simp add: play_def pause_def setSpeed_def send_if_open_not_open connect_def socket_opened_def)

theorem control_dropped_when_not_open_witness:
  "\<not> is_open \<lparr>ws = Some \<lparr>readyState = CLOSED, sent = [PlayMsg]\<rparr>\<rparr>
   \<and> play \<lparr>ws = Some \<lparr>readyState = CLOSED, sent = [PlayMsg]\<rparr>\<rparr>
       = \<lparr>ws = Some \<lparr>readyState = CLOSED, sent = [PlayMsg]\<rparr>\<rparr>
   \<and> pause \<lparr>ws = Some \<lparr>readyState = CLOSED, sent = [PlayMsg]\<rparr>\<rparr>
       = \<lparr>ws = Some \<lparr>readyState = CLOSED, sent = [PlayMsg]\<rparr>\<rparr>
   \<and> setSpeed 0 \<lparr>ws = Some \<lparr>readyState = CLOSED, sent = [PlayMsg]\<rparr>\<rparr>
       = \<lparr>ws = Some \<lparr>readyState = CLOSED, sent = [PlayMsg]\<rparr>\<rparr>"
proof -
  have h: "\<not> is_open \<lparr>ws = Some \<lparr>readyState = CLOSED, sent = [PlayMsg]\<rparr>\<rparr>"
    by (simp add: is_open_def)
  show ?thesis
    using h control_dropped_when_not_open [OF h, of 0] by simp
qed

section \<open>The \<^verbatim>\<open>error\<close> message\<close>

text \<open>
  Handling a message tagged \<^verbatim>\<open>error\<close> always completes; it stores the message text
  and clears the running flag, and does nothing else.
\<close>

lemma onMessage_error:
  "onMessage (ErrorMsg message) app = Inr (app\<lparr>error := Some message, isRunning := False\<rparr>)"
  by (simp add: onMessage_def)


section \<open>The action-value table of an \<^verbatim>\<open>update\<close>\<close>

lemma q_table_grid_update:
  "grid_update xy prev = Inr s \<Longrightarrow> q_table s = q_table prev"
  by (auto simp: grid_update_def split: prod.splits sum.splits)

lemma q_table_grid_steps:
  "grid_steps m cfg (Some prev) = Inr st4 \<Longrightarrow> \<exists>s. st4 = Some s \<and> q_table s = q_table prev"
  by (auto simp: grid_steps_def Let_def with_cells_def split: option.splits sum.splits if_splits
      dest: q_table_grid_update)

lemma grid_steps_None: "grid_steps m cfg None = Inr None"
  by (simp add: grid_steps_def Let_def split: option.splits)

lemma onMessage_update_Inr:
  assumes "onMessage (Update m) app = Inr app'"
  shows "qTableRef app' = merge_q m (qTableRef app)"
    and "state app' = Some s \<Longrightarrow> q_table s = merge_q m (qTableRef app)"
  using assms
  by (cases "state app";
      auto simp: onMessage_def Let_def fetchPath_def issue_def grid_steps_None update_fields_def
        split: sum.splits if_splits dest!: q_table_grid_steps)+

text \<open>
  Handling an \<^verbatim>\<open>update\<close> fails in one case only: the state is loaded and the message
  carries a \<^verbatim>\<open>grid_update\<close> for a row the grid does not have.
\<close>

lemma grid_update_fails_iff:
  "(\<exists>e. grid_update (x, y) prev = Inl e) = (js_index (cells (env prev)) y = None)"
  by (auto simp: grid_update_def set_cell_def split: option.splits)

lemma onMessage_update_fails_iff:
  "(\<exists>e. onMessage (Update m) app = Inl e)
   = (\<exists>st x y. state app = Some st \<and> msg_grid_update m = Some (x, y)
        \<and> js_index (cells (env st)) y = None)"
proof (cases "state app")
  case None
  then show ?thesis
    by (simp add: onMessage_def Let_def grid_steps_None)
next
  case (Some st)
  show ?thesis
  proof (cases "msg_grid_update m")
    case None
    with Some show ?thesis
      by (simp add: onMessage_def Let_def grid_steps_def)
  next
    case g: (Some xy)
    obtain x y where xy: "xy = (x, y)" by (cases xy)
    let ?st1 = "update_fields m (merge_q m (qTableRef app)) st"
    have env1: "cells (env ?st1) = cells (env st)"
      by (simp add: update_fields_def)
    show ?thesis
    proof (cases "js_index (cells (env st)) y")
      case None
      then obtain e where "grid_update (x, y) ?st1 = Inl e"
        using grid_update_fails_iff [of x y ?st1] env1 by auto
      with Some g xy None show ?thesis
        by (simp add: onMessage_def Let_def grid_steps_def)
    next
      case row: (Some row)
      then obtain s where "grid_update (x, y) ?st1 = Inr s"
        using grid_update_fails_iff [of x y ?st1] env1 by (cases "grid_update (x, y) ?st1") auto
      with Some g xy row show ?thesis
        by (simp add: onMessage_def Let_def grid_steps_def)
    qed
  qed
qed

text \<open>In particular, handling an \<^verbatim>\<open>update\<close> without a \<^verbatim>\<open>grid_update\<close> always completes.\<close>

lemma onMessage_update_returns:
  "msg_grid_update m = None \<Longrightarrow> \<exists>app'. onMessage (Update m) app = Inr app'"
  by (simp add: onMessage_def Let_def grid_steps_def split: option.splits)

text \<open>
  The table the handler merges into is \<^verbatim>\<open>qTableRef.current\<close>. After an
  \<^verbatim>\<open>update\<close> has been handled: if it carried a delta, the ref holds its old table
  with the delta's keys overwritten by the delta's values and every other key as before;
  if it carried no delta but a full table, the ref holds that table. A loaded state then
  shows the table of the ref.
\<close>

lemma qTableRef_after_update:
  assumes "onMessage (Update m) app = Inr app'"
  shows "(\<forall>d. msg_q_delta m = Some d \<longrightarrow>
            qTableRef app' = qTableRef app ++ d
            \<and> (\<forall>k. qTableRef app' k = (if k \<in> dom d then d k else qTableRef app k)))
       \<and> (\<forall>t. msg_q_delta m = None \<and> msg_q_table m = Some t \<longrightarrow> qTableRef app' = t)
       \<and> (\<forall>s. state app' = Some s \<longrightarrow> q_table s = qTableRef app')"
  using onMessage_update_Inr [OF assms]
  by (auto simp: merge_q_def map_add_def split: option.splits)

text \<open>
  C2, where the handler falls short of it. \<^verbatim>\<open>loadState\<close> replaces the table the client
  shows (\<^verbatim>\<open>state.q_table\<close>) and leaves the ref alone. After a \<^verbatim>\<open>handleTurbo\<close>
  that loaded a table with an entry for \<^verbatim>\<open>"1,1"\<close>, the ref is still empty; an
  \<^verbatim>\<open>update\<close> with a delta for \<^verbatim>\<open>"0,0"\<close> is merged into the ref, and the table
  shown afterwards has the entry for \<^verbatim>\<open>"0,0"\<close> and has lost the one for
  \<^verbatim>\<open>"1,1"\<close>, a key the delta does not carry.
\<close>

theorem delta_after_turbo_drops_keys:
  "\<exists>app'. state app_trained = Some trained_state
     \<and> qTableRef app_trained = Map.empty
     \<and> q_table trained_state ''1,1'' = Some q_tie
     \<and> msg_q_delta delta_msg = Some [''0,0'' \<mapsto> q_up]
     \<and> onMessage (Update delta_msg) app_trained = Inr app'
     \<and> map_option (\<lambda>s. q_table s ''0,0'') (state app') = Some (Some q_up)
     \<and> map_option (\<lambda>s. q_table s ''1,1'') (state app') = Some None"
  by (simp add: app_trained_def handleTurbo_def loadState_def Let_def issue_def completed_def
      fetchPath_def trained_state_def app2_def initial_App_def delta_msg_def onMessage_def
      grid_steps_def update_fields_def merge_q_def)

section \<open>The learning curve\<close>

lemma length_slice_last: "length (slice_last n xs) \<le> n"
  by (simp add: slice_last_def)

lemma slice_last_suffix: "take (length xs - n) xs @ slice_last n xs = xs"
  by (simp add: slice_last_def)



lemma curve_onMessage_done:
  "onMessage (Update m) app = Inr app' \<Longrightarrow> msg_episode_done m \<Longrightarrow>
   curve app' = slice_last 200 (curve app @ [episode_point m])"
  by (auto simp: onMessage_def Let_def fetchPath_def issue_def push_point_def split: sum.splits)

text \<open>
  The window of the \<^verbatim>\<open>episode_done\<close> path: the curve afterwards is the last 200
  points of the old curve followed by the new point, so it has at most 200 points and
  the oldest are the ones dropped.
\<close>

lemma curve_after_episode_done:
  assumes "onMessage (Update m) app = Inr app'" "msg_episode_done m"
  shows "length (curve app') \<le> 200"
    and "\<exists>dropped. dropped @ curve app' = curve app @ [episode_point m]"
  using curve_onMessage_done [OF assms] length_slice_last [of 200 "curve app @ [episode_point m]"]
    slice_last_suffix [of "curve app @ [episode_point m]" 200]
  by auto



section \<open>The order of the requests of \<^verbatim>\<open>handleTurbo\<close>\<close>

text \<open>
  C6. Every call of \<^verbatim>\<open>handleTurbo\<close> first issues an update of the configuration that
  carries the handler's current \<^verbatim>\<open>config\<close>. When that request fails, the handler stops
  with the failure and no turbo request is made; otherwise the request has completed
  before the turbo request is issued, and the turbo request is issued once.
\<close>

theorem turbo_pushes_config_first:
  "\<exists>rest. http (fst (handleTurbo count uc tr gs app))
            = http app @ Issued (UpdateConfigReq (config app)) # rest
     \<and> (case uc of
           Inl e \<Rightarrow> rest = [Failed (UpdateConfigReq (config app))]
                    \<and> snd (handleTurbo count uc tr gs app) = Some e
         | Inr u \<Rightarrow> \<exists>rest'. rest = Completed (UpdateConfigReq (config app)) # Issued (TurboReq count) # rest'
                    \<and> Issued (TurboReq count) \<notin> set rest')"
proof (cases uc)
  case (Inl e)
  then show ?thesis
    by (simp add: handleTurbo_def Let_def issue_def failed_def)
next
  case (Inr u)
  show ?thesis
  proof (cases tr)
    case (Inl e)
    with Inr show ?thesis
      by (simp add: handleTurbo_def Let_def issue_def failed_def completed_def)
  next
    case res: (Inr res)
    show ?thesis
    proof (cases "tr_status res = ''done''")
      case True
      with Inr res show ?thesis
        by (cases gs)
          (simp_all add: handleTurbo_def Let_def issue_def failed_def completed_def loadState_def
            fetchPath_def)
    next
      case False
      with Inr res show ?thesis
        by (simp add: handleTurbo_def Let_def issue_def failed_def completed_def)
    qed
  qed
qed

section \<open>Cell edits while running\<close>

text \<open>
  C8. A cell edit made while the client is in the running state changes nothing: the
  handler returns at once, with the configuration, the grid and every other part of the
  state as they were, and no request issued.
\<close>

theorem cell_edit_ignored_while_running:
  "isRunning app \<Longrightarrow> handleCellAction x y isDrag su gs app = Inr app"
  by (simp add: handleCellAction_def split: option.splits)

theorem cell_edit_ignored_while_running_witness:
  "isRunning (handlePlay app2)
   \<and> handleCellAction 0 0 False (Inr ()) (Inl FetchError) (handlePlay app2) = Inr (handlePlay app2)"
proof -
  have h: "isRunning (handlePlay app2)"
    by (simp add: handlePlay_def)
  show ?thesis
    using h cell_edit_ignored_while_running [OF h, of 0 0 False "Inr ()" "Inl FetchError"] by simp
qed

section \<open>The arrow of the best action\<close>








section \<open>The decay of the exploration rate\<close>

lemma decay_nonneg_floor:
  assumes "0 \<le> d" "d \<le> 1" "0 \<le> m"
  shows "decay_epsilon m d (max m v) = max m (v * d)"
proof -
  have "m * d \<le> m" using assms by (simp add: mult_left_le)
  moreover have "max m v * d = max (m * d) (v * d)"
    using assms(1) by (simp add: max_mult_distrib_right)
  ultimately show ?thesis
    by (simp add: decay_epsilon_def max_def)
qed

lemma epsilon_after_Suc_floor:
  assumes "0 \<le> d" "d \<le> 1" "0 \<le> m"
  shows "epsilon_after (Suc k) m d e = max m (e * d ^ Suc k)"
proof (induction k)
  case 0
  show ?case by (simp add: decay_epsilon_def)
next
  case (Suc k)
  have "epsilon_after (Suc (Suc k)) m d e = decay_epsilon m d (max m (e * d ^ Suc k))"
    using Suc by simp
  also have "\<dots> = max m (e * d ^ Suc k * d)"
    by (rule decay_nonneg_floor [OF assms])
  finally show ?case by (simp add: ac_simps)
qed

lemma epsilon_after_nonneg_start:
  assumes "0 \<le> d" "m < 0" "0 \<le> e"
  shows "epsilon_after k m d e = e * d ^ k"
proof (induction k)
  case 0
  show ?case by simp
next
  case (Suc k)
  have "0 \<le> e * d ^ k * d" using assms by simp
  with Suc assms(2) show ?case
    by (simp add: decay_epsilon_def max_def ac_simps)
qed

text \<open>
  C9, over the reals and where it holds. For a decay factor between 0 and 1, a floor or a
  start that is not negative, and, when no episode has been completed yet, a start that
  is not below the floor, the rate after \<open>k\<close> episodes of the per-episode update is
  \<open>max min_epsilon (epsilon_0 * epsilon_decay ^ k)\<close>.
\<close>

theorem epsilon_after_closed_form:
  assumes "0 \<le> d" "d \<le> 1" "0 \<le> m \<or> 0 \<le> e" "0 < k \<or> m \<le> e"
  shows "epsilon_after k m d e = epsilon_closed_form k m d e"
proof (cases "0 \<le> m")
  case True
  show ?thesis
  proof (cases k)
    case 0
    with assms(4) show ?thesis by (simp add: epsilon_closed_form_def max_def)
  next
    case (Suc j)
    with epsilon_after_Suc_floor [OF assms(1,2) True] show ?thesis
      by (simp add: epsilon_closed_form_def)
  qed
next
  case False
  then have m: "m < 0" and e: "0 \<le> e" using assms(3) by auto
  have "0 \<le> e * d ^ k" using e assms(1) by simp
  with m epsilon_after_nonneg_start [OF assms(1) m e] show ?thesis
    by (simp add: epsilon_closed_form_def max_def)
qed

theorem epsilon_after_closed_form_witness:
  "epsilon_after 2 (1 / 100) (1 / 2) (2 / 10) = epsilon_closed_form 2 (1 / 100) (1 / 2) (2 / 10)
   \<and> epsilon_after 2 (1 / 100) (1 / 2) (2 / 10) = 1 / 20
   \<and> epsilon_after 5 (1 / 100) (1 / 2) (2 / 10) = 1 / 100"
proof -
  have "epsilon_after 2 (1 / 100) (1 / 2) (2 / 10) = epsilon_closed_form 2 (1 / 100) (1 / 2) (2 / 10)"
    by (rule epsilon_after_closed_form) simp_all
  moreover have "epsilon_after 5 (1 / 100) (1 / 2) (2 / 10) = epsilon_closed_form 5 (1 / 100) (1 / 2) (2 / 10)"
    by (rule epsilon_after_closed_form) simp_all
  ultimately show ?thesis
    by (simp add: epsilon_closed_form_def power_divide)
qed

text \<open>
  Outside that range the two differ: with a factor above 1 the floor itself grows, and
  before the first episode a start below the floor has not been raised to it.
\<close>

theorem epsilon_closed_form_fails:
  "epsilon_after 2 (1 / 2) 2 (1 / 10) \<noteq> epsilon_closed_form 2 (1 / 2) 2 (1 / 10)
   \<and> epsilon_after 0 (1 / 100) (995 / 1000) 0 \<noteq> epsilon_closed_form 0 (1 / 100) (995 / 1000) 0"
  by (simp add: numeral_2_eq_2 decay_epsilon_def epsilon_closed_form_def)

section \<open>The \<^verbatim>\<open>grid_update\<close> of an \<^verbatim>\<open>update\<close>\<close>

lemma cell_at_update:
  assumes "0 \<le> y" "y < int (length cs)" "0 \<le> x" "x < int (length (cs ! nat y))"
  shows "cell_at (cs[nat y := (cs ! nat y)[nat x := Some v]]) r c
       = (if r = y \<and> c = x then Inr (Some v) else cell_at cs r c)"
  using assms
  by (auto simp: cell_at_def js_index_def nth_list_update nat_eq_iff)

lemma set_cell_in_range:
  assumes "0 \<le> y" "y < int (length cs)" "0 \<le> x" "x < int (length (cs ! nat y))"
  shows "set_cell cs y x v = Inr (cs[nat y := (cs ! nat y)[nat x := Some v]])"
proof -
  have "nat x < length (cs ! nat y)" using assms(3,4) by simp
  then show ?thesis
    using assms(1,2,3) by (simp add: set_cell_def js_index_def js_store_def)
qed

text \<open>
  C4, as the handler has it. On a loaded state, an \<^verbatim>\<open>update\<close> with a
  \<^verbatim>\<open>grid_update\<close> for a cell \<open>(x, y)\<close> of the grid, with no \<^verbatim>\<open>full_grid\<close> and no
  \<^verbatim>\<open>respawn_bonuses\<close> that finds \<^verbatim>\<open>config.cells\<close> set, is handled to the end; the
  state's grid then holds \<^verbatim>\<open>'empty'\<close> at \<open>(x, y)\<close>, every other cell reads as before,
  and width and height are as before.
\<close>

theorem grid_update_sets_one_cell:
  assumes "state app = Some st"
    and "msg_grid_update m = Some (x, y)"
    and "msg_full_grid m = None"
    and "\<not> msg_respawn_bonuses m \<or> cfg_cells (config app) = None"
    and "0 \<le> y" "y < int (length (cells (env st)))"
    and "0 \<le> x" "x < int (length (cells (env st) ! nat y))"
  shows "\<exists>app' st'. onMessage (Update m) app = Inr app' \<and> state app' = Some st'
     \<and> width (env st') = width (env st) \<and> height (env st') = height (env st)
     \<and> cells (env st') = (cells (env st))[nat y := (cells (env st) ! nat y)[nat x := Some ''empty'']]
     \<and> (\<forall>r c. cell_at (cells (env st')) r c
              = (if r = y \<and> c = x then Inr (Some ''empty'') else cell_at (cells (env st)) r c))"
proof -
  let ?cs = "cells (env st)"
  let ?new = "?cs[nat y := (?cs ! nat y)[nat x := Some ''empty'']]"
  let ?st1 = "update_fields m (merge_q m (qTableRef app)) st"
  have env1: "env ?st1 = env st"
    by (simp add: update_fields_def)
  have gu: "grid_update (x, y) ?st1 = Inr (?st1\<lparr>env := (env st)\<lparr>cells := ?new\<rparr>\<rparr>)"
    using assms(5-8) by (simp add: grid_update_def env1 set_cell_in_range)
  have gs: "grid_steps m (config app) (Some ?st1) = Inr (Some (?st1\<lparr>env := (env st)\<lparr>cells := ?new\<rparr>\<rparr>))"
    using assms(2-4) gu by (auto simp: grid_steps_def Let_def)
  have "\<exists>app'. onMessage (Update m) app = Inr app'
      \<and> state app' = Some (?st1\<lparr>env := (env st)\<lparr>cells := ?new\<rparr>\<rparr>)"
    using assms(1) gs by (simp add: onMessage_def Let_def fetchPath_def issue_def)
  then show ?thesis
    using cell_at_update [OF assms(5-8)] by auto
qed

theorem grid_update_sets_one_cell_witness:
  "\<exists>app' st'. onMessage (Update collect_msg) app_bonus = Inr app' \<and> state app' = Some st'
     \<and> cells (env st') = [[Some ''start'', Some ''empty''], [Some ''empty'', Some ''target'']]"
proof -
  have st: "state app_bonus = Some (with_cells grid_bonus state2)"
    by (simp add: app_bonus_def)
  have c: "cells (env (with_cells grid_bonus state2)) = grid_bonus"
    by (simp add: with_cells_def)
  have "\<exists>app' st'. onMessage (Update collect_msg) app_bonus = Inr app' \<and> state app' = Some st'
     \<and> width (env st') = width (env (with_cells grid_bonus state2))
     \<and> height (env st') = height (env (with_cells grid_bonus state2))
     \<and> cells (env st') = grid_bonus[nat 0 := (grid_bonus ! nat 0)[nat 1 := Some ''empty'']]
     \<and> (\<forall>r c. cell_at (cells (env st')) r c
              = (if r = 0 \<and> c = 1 then Inr (Some ''empty'') else cell_at grid_bonus r c))"
    using grid_update_sets_one_cell [OF st, of collect_msg 1 0]
    unfolding c
    by (simp add: collect_msg_def delta_msg_def grid_bonus_def)
  then show ?thesis
    by (auto simp: grid_bonus_def)
qed


text \<open>
  The two later updaters of the same message replace the grid after \<^verbatim>\<open>grid_update\<close>
  has run: with \<^verbatim>\<open>respawn_bonuses\<close> the cell \<open>(1, 0)\<close> holds the bonus again, taken
  from \<^verbatim>\<open>config.cells\<close>, and with \<^verbatim>\<open>full_grid\<close> the grid is the one of the message.
\<close>

theorem grid_update_overridden:
  "(\<exists>app' st'. onMessage (Update (collect_msg\<lparr>msg_respawn_bonuses := True\<rparr>)) app_bonus = Inr app'
       \<and> state app' = Some st' \<and> cell_at (cells (env st')) 0 1 = Inr (Some ''bonus:20''))
   \<and> (\<exists>app' st'. onMessage (Update (collect_msg\<lparr>msg_full_grid := Some grid2\<rparr>)) app_bonus = Inr app'
       \<and> state app' = Some st' \<and> cells (env st') = grid2)
   \<and> cell_at grid_bonus 0 1 = Inr (Some ''bonus:20'')"
  by (simp add: onMessage_def Let_def grid_steps_def grid_update_def set_cell_def js_index_def
      js_store_def collect_msg_def delta_msg_def app_bonus_def app2_def initial_App_def
      with_cells_def state2_def grid_bonus_def grid2_def update_fields_def merge_q_def cell_at_def
      DEFAULT_CONFIG_def)

section \<open>Cell edits and the start and target cells\<close>

lemma fold_update_nth:
  assumes "\<forall>i\<in>set ixs. i < length xs" "distinct ixs"
  shows "length (fold (\<lambda>i ys. ys[i := g (ys ! i)]) ixs xs) = length xs
       \<and> (\<forall>j<length xs. fold (\<lambda>i ys. ys[i := g (ys ! i)]) ixs xs ! j
              = (if j \<in> set ixs then g (xs ! j) else xs ! j))"
  using assms
proof (induction ixs arbitrary: xs)
  case Nil
  show ?case by simp
next
  case (Cons i ixs)
  let ?xs' = "xs[i := g (xs ! i)]"
  have "\<forall>k\<in>set ixs. k < length ?xs'" "distinct ixs"
    using Cons.prems by simp_all
  from Cons.IH [OF this] Cons.prems show ?case
    by (auto simp: nth_list_update)
qed

lemma fold_update_all:
  "fold (\<lambda>i ys. ys[i := g (ys ! i)]) [0..<length xs] xs = map g xs"
  using fold_update_nth [of "[0..<length xs]" xs g]
  by (intro nth_equalityI) auto

lemma cell_at_in_range:
  assumes "ry < length cs" "rx < length (cs ! ry)"
  shows "cell_at cs (int ry) (int rx) = Inr (cs ! ry ! rx)"
  using assms by (simp add: cell_at_def js_index_def)

lemma set_cell_in_range_nat:
  assumes "ry < length cs" "rx < length (cs ! ry)"
  shows "set_cell cs (int ry) (int rx) v = Inr (cs[ry := (cs ! ry)[rx := Some v]])"
  using assms by (simp add: set_cell_def js_index_def js_store_def)

lemma clear_row_fold:
  assumes "ry < length cs" "\<forall>rx\<in>set rxs. rx < length (cs ! ry)"
  shows "clear_row d (int ry) rxs cs
       = Inr (cs[ry := fold (\<lambda>i ys. ys[i := unmark d (ys ! i)]) rxs (cs ! ry)])"
  using assms
proof (induction rxs arbitrary: cs)
  case Nil
  then show ?case by simp
next
  case (Cons rx rxs)
  have rx: "rx < length (cs ! ry)" using Cons.prems by simp
  show ?case
  proof (cases "cs ! ry ! rx = Some d")
    case True
    let ?cs1 = "cs[ry := (cs ! ry)[rx := Some ''empty'']]"
    have "ry < length ?cs1" "\<forall>k\<in>set rxs. k < length (?cs1 ! ry)"
      using Cons.prems by simp_all
    from Cons.IH [OF this] True Cons.prems(1) rx show ?thesis
      by (simp add: cell_at_in_range set_cell_in_range_nat unmark_def)
  next
    case False
    have "ry < length cs" "\<forall>k\<in>set rxs. k < length (cs ! ry)"
      using Cons.prems by simp_all
    from Cons.IH [OF this] False Cons.prems(1) rx show ?thesis
      by (simp add: cell_at_in_range unmark_def)
  qed
qed

lemma clear_row_all:
  assumes "ry < length cs"
  shows "clear_row d (int ry) [0..<length (cs ! ry)] cs = Inr (cs[ry := map (unmark d) (cs ! ry)])"
  using clear_row_fold [OF assms, of "[0..<length (cs ! ry)]" d]
  by (simp add: fold_update_all)

lemma clear_rows_fold:
  assumes "\<forall>ry\<in>set rys. ry < length cs" "list_all (\<lambda>row. length row = w) cs"
  shows "clear_rows d rys w cs
       = Inr (fold (\<lambda>i ys. ys[i := map (unmark d) (ys ! i)]) rys cs)"
  using assms
proof (induction rys arbitrary: cs)
  case Nil
  then show ?case by simp
next
  case (Cons ry rys)
  have ry: "ry < length cs" using Cons.prems by simp
  then have w: "length (cs ! ry) = w"
    using Cons.prems(2) by (simp add: list_all_length)
  let ?cs1 = "cs[ry := map (unmark d) (cs ! ry)]"
  have "\<forall>k\<in>set rys. k < length ?cs1" using Cons.prems by simp
  moreover have "list_all (\<lambda>row. length row = w) ?cs1"
    using Cons.prems(2) w ry by (simp add: list_all_length nth_list_update)
  ultimately have "clear_rows d rys w ?cs1
       = Inr (fold (\<lambda>i ys. ys[i := map (unmark d) (ys ! i)]) rys ?cs1)"
    by (rule Cons.IH)
  with clear_row_all [OF ry, of d] w show ?case
    by simp
qed

lemma clear_marks_rect:
  assumes "rect h w cs"
  shows "clear_marks d h w cs = Inr (map (map (unmark d)) cs)"
proof -
  have h: "nat h = length cs" and rows: "list_all (\<lambda>row. length row = nat w) cs"
    using assms by (auto simp: rect_def list_all_length)
  have "clear_rows d [0..<length cs] (nat w) cs
      = Inr (fold (\<lambda>i ys. ys[i := map (unmark d) (ys ! i)]) [0..<length cs] cs)"
    by (rule clear_rows_fold) (use rows in simp_all)
  then show ?thesis
    by (simp add: clear_marks_def h fold_update_all)
qed

lemma row_count_split:
  assumes "x < length row"
  shows "row_count v row
       = row_count v (take x row) + (if row ! x = Some v then 1 else 0) + row_count v (drop (Suc x) row)"
proof -
  have "row_count v row = row_count v (take x row @ row ! x # drop (Suc x) row)"
    using assms by (simp add: id_take_nth_drop [symmetric])
  then show ?thesis
    by (simp add: row_count_def)
qed

lemma row_count_update:
  assumes "x < length row"
  shows "row_count v (row[x := Some u]) + (if row ! x = Some v then 1 else 0)
       = row_count v row + (if u = v then 1 else 0)"
proof -
  have "x < length (row[x := Some u])" using assms by simp
  from row_count_split [OF this, of v] row_count_split [OF assms, of v] assms show ?thesis
    by simp
qed

lemma sum_list_map_update:
  "y < length cs \<Longrightarrow>
   sum_list (map h (cs[y := r])) + h (cs ! y) = sum_list (map h cs) + (h r :: nat)"
proof (induction cs arbitrary: y)
  case Nil
  then show ?case by simp
next
  case (Cons c cs)
  then show ?case
    by (cases y) (auto simp: add.assoc)
qed

lemma cell_count_update:
  assumes "y < length cs" "x < length (cs ! y)"
  shows "cell_count v (cs[y := (cs ! y)[x := Some u]]) + (if cs ! y ! x = Some v then 1 else 0)
       = cell_count v cs + (if u = v then 1 else 0)"
proof -
  have "cell_count v (cs[y := (cs ! y)[x := Some u]]) + row_count v (cs ! y)
      = cell_count v cs + row_count v ((cs ! y)[x := Some u])"
    unfolding cell_count_def by (rule sum_list_map_update [OF assms(1)])
  with row_count_update [OF assms(2), of v u] show ?thesis
    by (simp split: if_splits)
qed

lemma unmark_same: "d \<noteq> ''empty'' \<Longrightarrow> unmark d c \<noteq> Some d"
  by (auto simp: unmark_def)

lemma unmark_other: "v \<noteq> d \<Longrightarrow> v \<noteq> ''empty'' \<Longrightarrow> (unmark d c = Some v) = (c = Some v)"
  by (auto simp: unmark_def)

lemma row_count_unmark_same:
  "d \<noteq> ''empty'' \<Longrightarrow> row_count d (map (unmark d) row) = 0"
  by (simp add: row_count_def filter_map o_def unmark_same)

lemma row_count_unmark_other:
  "v \<noteq> d \<Longrightarrow> v \<noteq> ''empty'' \<Longrightarrow> row_count v (map (unmark d) row) = row_count v row"
  by (simp add: row_count_def filter_map o_def unmark_other)

lemma cell_count_unmark_same:
  "d \<noteq> ''empty'' \<Longrightarrow> cell_count d (map (map (unmark d)) cs) = 0"
  by (induction cs) (simp_all add: cell_count_def row_count_unmark_same)

lemma cell_count_unmark_other:
  "v \<noteq> d \<Longrightarrow> v \<noteq> ''empty'' \<Longrightarrow> cell_count v (map (map (unmark d)) cs) = cell_count v cs"
  by (induction cs) (simp_all add: cell_count_def row_count_unmark_other)


lemma cell_count_paint:
  assumes "ny < length g" "nx < length (g ! ny)" "g ! ny ! nx \<noteq> Some m"
  shows "cell_count m (g[ny := (g ! ny)[nx := Some v]]) = cell_count m g + (if v = m then 1 else 0)"
  using cell_count_update [OF assms(1,2), of m v] assms(3) by simp

lemma mark_kept:
  assumes "ny < length g" "nx < length (g ! ny)"
    and "cell_count m g = 1" "g ! ny ! nx \<noteq> Some m" "m \<noteq> ''empty''"
    and "cleared = (if clr then map (map (unmark v)) g else g)"
    and "\<not> clr \<Longrightarrow> v \<noteq> m"
  shows "cell_count m (cleared[ny := (cleared ! ny)[nx := Some v]]) = 1"
proof (cases clr)
  case False
  with assms(6,7) have "cleared = g" "v \<noteq> m" by simp_all
  with cell_count_paint [OF assms(1,2,4), of v] assms(3) show ?thesis by simp
next
  case True
  then have c: "cleared = map (map (unmark v)) g" using assms(6) by simp
  have b: "ny < length cleared" "nx < length (cleared ! ny)"
    using assms(1,2) by (simp_all add: c)
  have at: "cleared ! ny ! nx = unmark v (g ! ny ! nx)"
    using assms(1,2) by (simp add: c)
  show ?thesis
  proof (cases "v = m")
    case True
    then have "cleared ! ny ! nx \<noteq> Some m"
      using at assms(5) by (simp add: unmark_same)
    from cell_count_paint [OF b this, of v] True assms(5) show ?thesis
      by (simp add: c cell_count_unmark_same)
  next
    case False
    then have "cleared ! ny ! nx \<noteq> Some m"
      using at assms(4,5) by (simp add: unmark_other)
    from cell_count_paint [OF b this, of v] False assms(3,5) show ?thesis
      by (simp add: c cell_count_unmark_other)
  qed
qed

lemma config_sync_cells: "config (sync_cells nc su gs a) = config a"
  by (cases su; cases gs)
    (simp_all add: sync_cells_def loadState_def issue_def failed_def completed_def fetchPath_def)

lemma targetCellValue_start: "(targetCellValue app = ''start'') = (drawMode app = Start)"
  by (cases "drawMode app") (simp_all add: targetCellValue_def)

lemma targetCellValue_target: "(targetCellValue app = ''target'') = (drawMode app = Target)"
  by (cases "drawMode app") (simp_all add: targetCellValue_def)

lemma targetCellValue_clearing:
  "drawMode app = Start \<or> drawMode app = Target \<Longrightarrow> cell_string (drawMode app) = targetCellValue app"
  by (auto simp: targetCellValue_def)

text \<open>
  C3, as the handler has it. The client is loaded and paused, the grid the edit starts
  from is rectangular with the dimensions the loops use and holds exactly one
  \<^verbatim>\<open>start\<close> and one \<^verbatim>\<open>target\<close>, and the edited cell lies in the grid and holds
  neither of the two. Then the edit completes, with any brush, and the grid it leaves
  holds exactly one \<^verbatim>\<open>start\<close> and one \<^verbatim>\<open>target\<close> and the brush's value at the edited
  cell.
\<close>

theorem cell_edit_keeps_start_and_target:
  assumes st: "state app = Some st" and run: "\<not> isRunning app"
    and g: "active_cells app = Some g"
    and rect: "rect (or_else (cfg_height (config app)) (height (env st)))
                    (or_else (cfg_width (config app)) (width (env st))) g"
    and x: "0 \<le> x" "x < or_else (cfg_width (config app)) (width (env st))"
    and y: "0 \<le> y" "y < or_else (cfg_height (config app)) (height (env st))"
    and one_start: "cell_count ''start'' g = 1"
    and one_target: "cell_count ''target'' g = 1"
    and not_start: "cell_at g y x \<noteq> Inr (Some ''start'')"
    and not_target: "cell_at g y x \<noteq> Inr (Some ''target'')"
  shows "\<exists>app' g'. handleCellAction x y isDrag su gs app = Inr app'
      \<and> active_cells app' = Some g'
      \<and> cell_count ''start'' g' = 1 \<and> cell_count ''target'' g' = 1
      \<and> cell_at g' y x = Inr (Some (targetCellValue app))"
proof -
  let ?v = "targetCellValue app"
  let ?clr = "drawMode app = Start \<or> drawMode app = Target"
  define ny nx where "ny = nat y" and "nx = nat x"
  have yx: "y = int ny" "x = int nx"
    using x(1) y(1) by (simp_all add: ny_def nx_def)
  have ny: "ny < length g"
    using rect y by (auto simp: rect_def ny_def)
  then have nx: "nx < length (g ! ny)"
    using rect x by (auto simp: rect_def list_all_length nx_def)
  have new: "(case cfg_cells (config app) of Some cs \<Rightarrow> cs | None \<Rightarrow> cells (env st)) = g"
    using g st by (auto simp: active_cells_def split: option.splits)
  have at: "cell_at g y x = Inr (g ! ny ! nx)"
    unfolding yx by (rule cell_at_in_range [OF ny nx])
  have c0: "g ! ny ! nx \<noteq> Some ''start''" "g ! ny ! nx \<noteq> Some ''target''"
    using not_start not_target at by simp_all
  show ?thesis
  proof (cases "g ! ny ! nx = Some ?v")
    case True
    then have "handleCellAction x y isDrag su gs app = Inr app"
      using st run new at by (simp add: handleCellAction_def Let_def)
    with g one_start one_target at True show ?thesis by simp
  next
    case False
    define cleared where "cleared = (if ?clr then map (map (unmark ?v)) g else g)"
    define painted where "painted = cleared[ny := (cleared ! ny)[nx := Some ?v]]"
    have cl: "(if ?clr then clear_marks (cell_string (drawMode app))
                  (or_else (cfg_height (config app)) (height (env st)))
                  (or_else (cfg_width (config app)) (width (env st))) g
               else Inr g) = Inr cleared"
      using clear_marks_rect [OF rect, of ?v]
      by (auto simp: cleared_def targetCellValue_clearing)
    have b: "ny < length cleared" "nx < length (cleared ! ny)"
      using ny nx by (simp_all add: cleared_def)
    have sc: "set_cell cleared y x ?v = Inr painted"
      unfolding yx painted_def by (rule set_cell_in_range_nat [OF b])
    let ?app1 = "app\<lparr>config := (config app)\<lparr>cfg_cells := Some painted\<rparr>\<rparr>"
    let ?app' = "if isDrag then ?app1 else sync_cells ((config app)\<lparr>cfg_cells := Some painted\<rparr>) su gs ?app1"
    have res: "handleCellAction x y isDrag su gs app = Inr ?app'"
      using st run at False
      by (simp add: handleCellAction_def Let_def new cl sc del: if_split cong: if_cong)
    have act: "active_cells ?app' = Some painted"
      by (simp add: active_cells_def config_sync_cells)
    have s1: "cell_count ''start'' painted = 1"
      unfolding painted_def
      by (rule mark_kept [OF ny nx one_start c0(1) _ cleared_def])
        (simp_all add: targetCellValue_start)
    have t1: "cell_count ''target'' painted = 1"
      unfolding painted_def
      by (rule mark_kept [OF ny nx one_target c0(2) _ cleared_def])
        (simp_all add: targetCellValue_target)
    have "cell_at painted y x = Inr (Some ?v)"
      unfolding yx painted_def using b by (simp add: cell_at_in_range)
    with res act s1 t1 show ?thesis by blast
  qed
qed

theorem cell_edit_keeps_start_and_target_witness:
  "\<exists>app' g'. handleCellAction 1 0 True (Inr ()) (Inl FetchError) (app2\<lparr>drawMode := Start\<rparr>) = Inr app'
      \<and> active_cells app' = Some g'
      \<and> cell_count ''start'' g' = 1 \<and> cell_count ''target'' g' = 1
      \<and> cell_at g' 0 1 = Inr (Some ''start'')"
proof -
  let ?app = "app2\<lparr>drawMode := Start\<rparr>"
  have v: "targetCellValue ?app = ''start''"
    by (simp add: targetCellValue_def)
  have "\<exists>app' g'. handleCellAction 1 0 True (Inr ()) (Inl FetchError) ?app = Inr app'
      \<and> active_cells app' = Some g'
      \<and> cell_count ''start'' g' = 1 \<and> cell_count ''target'' g' = 1
      \<and> cell_at g' 0 1 = Inr (Some (targetCellValue ?app))"
  proof (rule cell_edit_keeps_start_and_target [where st = state2 and g = grid2])
    show "state ?app = Some state2"
      by (simp add: app2_def)
    show "\<not> isRunning ?app"
      by (simp add: app2_def initial_App_def)
    show "active_cells ?app = Some grid2"
      by (simp add: active_cells_def app2_def initial_App_def DEFAULT_CONFIG_def state2_def)
    show "rect (or_else (cfg_height (config ?app)) (height (env state2)))
            (or_else (cfg_width (config ?app)) (width (env state2))) grid2"
      by (simp add: rect_def or_else_def app2_def DEFAULT_CONFIG_def grid2_def)
    show "(1::int) < or_else (cfg_width (config ?app)) (width (env state2))"
      by (simp add: or_else_def app2_def DEFAULT_CONFIG_def)
    show "(0::int) < or_else (cfg_height (config ?app)) (height (env state2))"
      by (simp add: or_else_def app2_def DEFAULT_CONFIG_def)
    show "cell_count ''start'' grid2 = 1" "cell_count ''target'' grid2 = 1"
      by (simp_all add: cell_count_def row_count_def grid2_def)
    show "cell_at grid2 0 1 \<noteq> Inr (Some ''start'')" "cell_at grid2 0 1 \<noteq> Inr (Some ''target'')"
      by (simp_all add: cell_at_def js_index_def grid2_def)
  qed simp_all
  then show ?thesis
    unfolding v .
qed

text \<open>
  An edit of the cell that holds the only \<^verbatim>\<open>start\<close> is not rejected: the wall brush on
  cell \<open>(0, 0)\<close> of the 2 by 2 grid leaves a grid without a \<^verbatim>\<open>start\<close>.
\<close>

theorem cell_edit_removes_start:
  "\<exists>app'. handleCellAction 0 0 True (Inr ()) (Inl FetchError) app2 = Inr app'
     \<and> active_cells app2 = Some grid2
     \<and> cell_count ''start'' grid2 = 1 \<and> cell_count ''target'' grid2 = 1
     \<and> active_cells app' = Some [[Some ''wall'', Some ''empty''], [Some ''empty'', Some ''target'']]
     \<and> cell_count ''start'' [[Some ''wall'', Some ''empty''], [Some ''empty'', Some ''target'']] = 0"
  by (simp add: handleCellAction_def Let_def app2_def initial_App_def DEFAULT_CONFIG_def state2_def
      grid2_def targetCellValue_def cell_at_def set_cell_def js_index_def js_store_def
      active_cells_def cell_count_def row_count_def)

end
